theory Spec2Isabelle
  imports Complex_Main "HOL-Library.Sublist" "HOL-Library.Multiset"
begin

section \<open>Data model\<close>

text \<open>
  The component \<^verbatim>\<open>App\<close> of \<^verbatim>\<open>src/src/App.tsx\<close> and \<^verbatim>\<open>src/unnamed/part_000\<close>.
  A JavaScript string is modelled as a \<^typ>\<open>string\<close> whose characters are code units
  below 256 (the Latin-1 range); the \<^verbatim>\<open>number\<close> fields are \<^typ>\<open>int\<close> for \<^verbatim>\<open>id\<close> and
  \<^typ>\<open>rat\<close> for \<^verbatim>\<open>price\<close>, which the code stores and shows but never computes with.
\<close>

record Product =
  id' :: int
  name :: string
  category :: string
  brand :: string
  price :: rat

text \<open>
  The seven \<^verbatim>\<open>useState\<close> cells. \<open>productsRef\<close> stands for the identity of the array
  held in \<open>products\<close>: the dependency array of \<^verbatim>\<open>useEffect\<close> compares arrays by
  reference, and every \<^verbatim>\<open>setProducts\<close> of the code stores an array just received.
\<close>

record AppState =
  products :: "Product list"
  productsRef :: nat
  filtered :: "Product list"
  brands :: "string list"
  categories :: "string list"
  selectedBrand :: string
  selectedCategory :: string
  search :: string

subsection \<open>String operations of the language\<close>

text \<open>\<^verbatim>\<open>String.prototype.trim\<close>: white space and line terminators, here those below 256.\<close>

definition isWhiteSpace :: "char \<Rightarrow> bool" where
  "isWhiteSpace c =
     (c \<in> set [CHR 0x09, CHR 0x0A, CHR 0x0B, CHR 0x0C, CHR 0x0D, CHR 0x20, CHR 0xA0])"

definition trim :: "string \<Rightarrow> string" where
  "trim s = rev (dropWhile isWhiteSpace (rev (dropWhile isWhiteSpace s)))"

text \<open>
  \<^verbatim>\<open>String.prototype.toLowerCase\<close> on code units below 256: \<open>A\<close>--\<open>Z\<close> and the
  accented capitals \<open>0xC0\<close>--\<open>0xDE\<close> (the multiplication sign \<open>0xD7\<close> apart) move up
  by 32, every other code unit stays.
\<close>

definition toLowerChar :: "char \<Rightarrow> char" where
  "toLowerChar c =
     (let n = (of_char c :: nat)
      in if (65 \<le> n \<and> n \<le> 90) \<or> (192 \<le> n \<and> n \<le> 222 \<and> n \<noteq> 215)
         then char_of (n + 32) else c)"

definition toLowerCase :: "string \<Rightarrow> string" where
  "toLowerCase s = map toLowerChar s"

text \<open>\<^verbatim>\<open>t.includes(s)\<close>: \<open>s\<close> occurs in \<open>t\<close> at some position, tried from the left.\<close>

fun includes' :: "string \<Rightarrow> string \<Rightarrow> bool" where
  "includes' [] s = (s = [])"
| "includes' (c # t) s = (prefix s (c # t) \<or> includes' t s)"

section \<open>The filter\<close>

text \<open>
  The body of \<^verbatim>\<open>applyFilters\<close>: the local \<^verbatim>\<open>filteredData\<close> starts as a copy of
  \<^verbatim>\<open>products\<close> and passes three guarded \<^verbatim>\<open>filter\<close> calls. A string is truthy when it
  is not empty; \<^verbatim>\<open>===\<close> on strings is equality of contents.
\<close>

definition filteredData :: "Product list \<Rightarrow> string \<Rightarrow> string \<Rightarrow> string \<Rightarrow> Product list" where
  "filteredData all selBrand selCategory srch =
     (let fd0 = all;
          fd1 = (if selBrand \<noteq> [] then filter (\<lambda>p. brand p = selBrand) fd0 else fd0);
          fd2 = (if selCategory \<noteq> [] then filter (\<lambda>p. category p = selCategory) fd1 else fd1);
          fd3 = (if trim srch \<noteq> []
                 then (let s = toLowerCase srch
                       in filter (\<lambda>p. includes' (toLowerCase (name p)) s
                                     \<or> includes' (toLowerCase (brand p)) s
                                     \<or> includes' (toLowerCase (category p)) s) fd2)
                 else fd2)
      in fd3)"

definition applyFilters :: "AppState \<Rightarrow> AppState" where
  "applyFilters st =
     st\<lparr>filtered :=
          filteredData (products st) (selectedBrand st) (selectedCategory st) (search st)\<rparr>"

definition resetFilters :: "AppState \<Rightarrow> AppState" where
  "resetFilters st =
     st\<lparr>selectedBrand := [], selectedCategory := [], search := [], filtered := products st\<rparr>"

text \<open>The two products of the specification's concrete scenario.\<close>

definition widgetA :: Product where
  "widgetA = \<lparr>id' = 1, name = ''Widget A'', category = ''Tools'', brand = ''Acme'',
              price = 999 / 100\<rparr>"

definition gadgetB :: Product where
  "gadgetB = \<lparr>id' = 2, name = ''Gadget B'', category = ''Electronics'', brand = ''Zeta'',
              price = 39 / 2\<rparr>"

section \<open>Loading\<close>

text \<open>
  \<^verbatim>\<open>new Set(xs)\<close> adds the elements of \<open>xs\<close> from left to right; a set keeps its
  elements in insertion order and adding a present element changes nothing. The set is
  the list of its elements in that order, which is what \<^verbatim>\<open>Array.from\<close> returns.
\<close>

definition setAdd :: "'a list \<Rightarrow> 'a \<Rightarrow> 'a list" where
  "setAdd S x = (if x \<in> set S then S else S @ [x])"

definition newSet :: "'a list \<Rightarrow> 'a list" where
  "newSet xs = foldl setAdd [] xs"

text \<open>
  What \<^verbatim>\<open>await supabase.from('products').select('*')\<close> resolves to: \<^verbatim>\<open>data\<close> and
  \<^verbatim>\<open>error\<close>, each possibly \<^verbatim>\<open>null\<close>; of the error object only \<^verbatim>\<open>message\<close> is read.
\<close>

record Response =
  data :: "Product list option"
  error :: "string option"

text \<open>
  The view and what it acts on: the state cells, the calls of \<^verbatim>\<open>console.error\<close> so
  far (each with its arguments), the number of \<^verbatim>\<open>select\<close> queries sent to the store,
  and whether the promise of the query is still unresolved.
\<close>

record World =
  state :: AppState
  console :: "string list list"
  requests :: nat
  awaiting :: bool

datatype failure = TypeError

text \<open>
  \<^verbatim>\<open>fetchProducts\<close> up to its \<^verbatim>\<open>await\<close>: the query is sent. It reads no state.
\<close>

definition fetchProducts_select :: "World \<Rightarrow> World" where
  "fetchProducts_select w = w\<lparr>requests := Suc (requests w), awaiting := True\<rparr>"

text \<open>
  The rest of \<^verbatim>\<open>fetchProducts\<close> in \<^verbatim>\<open>App.tsx\<close>, run when the promise resolves to \<open>r\<close>:
  \<^verbatim>\<open>if (error) ... else if (data) ...\<close>. An array, also an empty one, is truthy.
\<close>

definition fetchProducts :: "Response \<Rightarrow> World \<Rightarrow> World" where
  "fetchProducts r w =
     (case error r of
        Some message \<Rightarrow> w\<lparr>console := console w @ [[''Error fetching:'', message]]\<rparr>
      | None \<Rightarrow>
          (case data r of
             Some typedData \<Rightarrow>
               (let brandSet = newSet (map brand typedData);
                    categorySet = newSet (map category typedData)
                in w\<lparr>state := (state w)
                       \<lparr>products := typedData, productsRef := Suc (productsRef (state w)),
                        filtered := typedData, brands := brandSet,
                        categories := categorySet\<rparr>\<rparr>)
           | None \<Rightarrow> w))"

text \<open>
  The same in \<^verbatim>\<open>part_000\<close>: \<^verbatim>\<open>if (error) { ...; return }\<close>, then \<^verbatim>\<open>data\<close> is used
  unguarded, so \<^verbatim>\<open>productList.map\<close> on \<^verbatim>\<open>null\<close> throws before any setter is called.
\<close>

definition fetchProducts_part000 :: "Response \<Rightarrow> World \<Rightarrow> failure + World" where
  "fetchProducts_part000 r w =
     (case error r of
        Some message \<Rightarrow> Inr (w\<lparr>console := console w @ [[''Error fetching data:'', message]]\<rparr>)
      | None \<Rightarrow>
          (case data r of
             None \<Rightarrow> Inl TypeError
           | Some productList \<Rightarrow>
               (let brandSet = newSet (map brand productList);
                    categorySet = newSet (map category productList)
                in Inr (w\<lparr>state := (state w)
                       \<lparr>products := productList, productsRef := Suc (productsRef (state w)),
                        filtered := productList, brands := brandSet,
                        categories := categorySet\<rparr>\<rparr>))))"

section \<open>The running view\<close>

text \<open>
  The three versions of the component:
  \<^item> \<open>AutoRecompute\<close>, the first \<^verbatim>\<open>App\<close> of \<^verbatim>\<open>App.tsx\<close>: a \<^verbatim>\<open>useEffect\<close> on
    \<^verbatim>\<open>[selectedBrand, selectedCategory, search, products]\<close> calls \<^verbatim>\<open>applyFilters\<close>;
    there is no Apply button;
  \<^item> \<open>ApplyButton\<close>, the second \<^verbatim>\<open>App\<close> of \<^verbatim>\<open>App.tsx\<close>: no such effect, an Apply
    button calls \<^verbatim>\<open>applyFilters\<close>;
  \<^item> \<open>ApplyButtonPart000\<close>, \<^verbatim>\<open>part_000\<close>: as \<open>ApplyButton\<close>, with its own
    \<^verbatim>\<open>fetchProducts\<close>.
\<close>

datatype version = AutoRecompute | ApplyButton | ApplyButtonPart000

datatype event =
    FetchDone Response
  | SearchChange string
  | BrandChange string
  | CategoryChange string
  | ApplyClick
  | ResetClick
  | ExportClick

definition initialState :: AppState where
  "initialState =
     \<lparr>products = [], productsRef = 0, filtered = [], brands = [], categories = [],
      selectedBrand = [], selectedCategory = [], search = []\<rparr>"

text \<open>
  The handler of each event, as the JSX wires it. The promise resolves once; a rejected
  continuation (\<open>Inl\<close>) is caught by nobody and leaves the view as it was.
  \<^verbatim>\<open>exportToExcel\<close> reads \<^verbatim>\<open>filtered\<close> and calls no setter.
\<close>

fun onEvent :: "version \<Rightarrow> event \<Rightarrow> World \<Rightarrow> World" where
  "onEvent v (FetchDone r) w =
     (if awaiting w
      then (let w0 = w\<lparr>awaiting := False\<rparr>
            in if v = ApplyButtonPart000
               then (case fetchProducts_part000 r w0 of Inl e \<Rightarrow> w0 | Inr w1 \<Rightarrow> w1)
               else fetchProducts r w0)
      else w)"
| "onEvent v (SearchChange x) w = w\<lparr>state := (state w)\<lparr>search := x\<rparr>\<rparr>"
| "onEvent v (BrandChange x) w = w\<lparr>state := (state w)\<lparr>selectedBrand := x\<rparr>\<rparr>"
| "onEvent v (CategoryChange x) w = w\<lparr>state := (state w)\<lparr>selectedCategory := x\<rparr>\<rparr>"
| "onEvent v ApplyClick w =
     (if v = AutoRecompute then w else w\<lparr>state := applyFilters (state w)\<rparr>)"
| "onEvent v ResetClick w = w\<lparr>state := resetFilters (state w)\<rparr>"
| "onEvent v ExportClick w = w"

text \<open>
  The dependency array of the effect: it runs after a render in which one of the four
  values differs from the render before.
\<close>

definition depsChanged :: "AppState \<Rightarrow> AppState \<Rightarrow> bool" where
  "depsChanged st st' =
     (selectedBrand st' \<noteq> selectedBrand st \<or> selectedCategory st' \<noteq> selectedCategory st
      \<or> search st' \<noteq> search st \<or> productsRef st' \<noteq> productsRef st)"

text \<open>
  One event: its handler, whose state updates make one render, then the effect of
  \<open>AutoRecompute\<close> when a dependency changed.
\<close>

definition step :: "version \<Rightarrow> event \<Rightarrow> World \<Rightarrow> World" where
  "step v ev w =
     (let w' = onEvent v ev w
      in if v = AutoRecompute \<and> depsChanged (state w) (state w')
         then w'\<lparr>state := applyFilters (state w')\<rparr> else w')"

text \<open>
  Mounting: the first render with the initial state, then the effects in the order of
  the code: \<^verbatim>\<open>fetchProducts()\<close> up to its \<^verbatim>\<open>await\<close> and, in \<open>AutoRecompute\<close>,
  \<^verbatim>\<open>applyFilters()\<close>.
\<close>

definition mount :: "version \<Rightarrow> World" where
  "mount v =
     (let w = fetchProducts_select
                \<lparr>state = initialState, console = [], requests = 0, awaiting = False\<rparr>
      in if v = AutoRecompute then w\<lparr>state := applyFilters (state w)\<rparr> else w)"

definition run :: "version \<Rightarrow> event list \<Rightarrow> World" where
  "run v evs = foldl (\<lambda>w ev. step v ev w) (mount v) evs"

text \<open>Whether \<open>p\<close> stands before \<open>q\<close> in a list.\<close>

fun precedes :: "'a \<Rightarrow> 'a \<Rightarrow> 'a list \<Rightarrow> bool" where
  "precedes p q [] = False"
| "precedes p q (x # xs) = ((x = p \<and> q \<in> set xs) \<or> precedes p q xs)"

text \<open>The events a user causes: all but the answer of the store.\<close>

fun userEvent :: "event \<Rightarrow> bool" where
  "userEvent (FetchDone r) = False"
| "userEvent ev = True"

text \<open>Further sample data: a product without a blank in any field, and two views.\<close>

definition anvil :: Product where
  "anvil = \<lparr>id' = 3, name = ''Anvil'', category = ''Tools'', brand = ''Acme'', price = 45\<rparr>"

definition blankQueryState :: AppState where
  "blankQueryState = initialState\<lparr>products := [anvil], search := '' ''\<rparr>"

definition catalogue :: Response where
  "catalogue = \<lparr>data = Some [widgetA, gadgetB, anvil], error = None\<rparr>"

definition storeDown :: Response where
  "storeDown = \<lparr>data = None, error = Some ''connection refused''\<rparr>"

definition catalogueView :: AppState where
  "catalogueView = initialState\<lparr>products := [widgetA, gadgetB, anvil]\<rparr>"

definition toolsView :: AppState where
  "toolsView = catalogueView\<lparr>selectedCategory := ''Tools''\<rparr>"

definition repeats :: Response where
  "repeats = \<lparr>data = Some [widgetA, gadgetB, anvil, gadgetB], error = None\<rparr>"

text \<open>\<^verbatim>\<open>part_000\<close> after the load of \<open>catalogue\<close> and the typing of a query.\<close>

definition typedGadget :: World where
  "typedGadget = run ApplyButtonPart000 [FetchDone catalogue, SearchChange ''gadget'']"

text \<open>The visible list is the filter of the current product list and filter fields.\<close>

definition upToDate :: "AppState \<Rightarrow> bool" where
  "upToDate st =
     (filtered st
        = filteredData (products st) (selectedBrand st) (selectedCategory st) (search st))"

text \<open>What only \<^verbatim>\<open>fetchProducts\<close> writes, and whether its answer is still awaited.\<close>

definition loadFrame ::
  "World \<Rightarrow>
     Product list \<times> nat \<times> string list \<times> string list \<times> string list list \<times> nat \<times> bool" where
  "loadFrame w =
     (products (state w), productsRef (state w), brands (state w), categories (state w),
      console w, requests w, awaiting w)"

section \<open>Facts about the string operations and the set\<close>

lemma includes'_iff_sublist: "includes' t s \<longleftrightarrow> sublist s t"
  by (induction t) (simp_all add: sublist_Cons_right)

lemma trim_empty_iff: "trim s = [] \<longleftrightarrow> (\<forall>c\<in>set s. isWhiteSpace c)"
proof
  assume "trim s = []"
  then have "\<forall>c\<in>set (dropWhile isWhiteSpace s). isWhiteSpace c"
    by (simp add: trim_def)
  then have "dropWhile isWhiteSpace s = []"
    using hd_dropWhile [of isWhiteSpace s] hd_in_set [of "dropWhile isWhiteSpace s"] by blast
  then show "\<forall>c\<in>set s. isWhiteSpace c"
    by simp
next
  assume "\<forall>c\<in>set s. isWhiteSpace c"
  then have "dropWhile isWhiteSpace s = []"
    by simp
  then show "trim s = []"
    unfolding trim_def by (simp only: rev.simps dropWhile.simps)
qed

lemma newSet_snoc: "newSet (xs @ [x]) = setAdd (newSet xs) x"
  by (simp add: newSet_def)

lemma set_newSet: "set (newSet xs) = set xs"
  by (induction xs rule: rev_induct) (auto simp: newSet_snoc setAdd_def newSet_def)

lemma distinct_newSet: "distinct (newSet xs)"
  by (induction xs rule: rev_induct) (auto simp: newSet_snoc setAdd_def newSet_def)

text \<open>
  The set holds, in order, the elements at the positions of \<open>xs\<close> where an element
  occurs for the first time.
\<close>

lemma newSet_first_occurrences:
  "newSet xs = map ((!) xs) (filter (\<lambda>i. xs ! i \<notin> set (take i xs)) [0..<length xs])"
proof (induction xs rule: rev_induct)
  case Nil
  show ?case by (simp add: newSet_def)
next
  case (snoc x xs)
  define P where "P = (\<lambda>i. (xs @ [x]) ! i \<notin> set (take i (xs @ [x])))"
  have f: "filter P [0..<length xs] = filter (\<lambda>i. xs ! i \<notin> set (take i xs)) [0..<length xs]"
    unfolding P_def by (rule filter_cong) (auto simp: nth_append)
  have m: "map ((!) (xs @ [x])) (filter P [0..<length xs]) = map ((!) xs) (filter P [0..<length xs])"
    by (rule map_cong) (auto simp: nth_append)
  have l: "P (length xs) \<longleftrightarrow> x \<notin> set xs"
    by (simp add: P_def)
  have "map ((!) (xs @ [x])) (filter P [0..<length (xs @ [x])])
      = map ((!) (xs @ [x])) (filter P [0..<length xs]) @ (if x \<notin> set xs then [x] else [])"
    by (simp add: l)
  also have "\<dots> = newSet xs @ (if x \<notin> set xs then [x] else [])"
    by (simp only: m) (simp only: f snoc.IH [symmetric])
  also have "\<dots> = newSet (xs @ [x])"
    by (simp add: newSet_snoc setAdd_def set_newSet)
  finally show ?case
    by (simp only: P_def)
qed

section \<open>Facts about the filter\<close>

text \<open>The three guarded passes amount to one pass with the conjunction of the guards.\<close>

lemma filteredData_as_filter:
  "filteredData all b c q =
     filter (\<lambda>p. (b = [] \<or> brand p = b) \<and> (c = [] \<or> category p = c) \<and>
                 (trim q = [] \<or> includes' (toLowerCase (name p)) (toLowerCase q)
                   \<or> includes' (toLowerCase (brand p)) (toLowerCase q)
                   \<or> includes' (toLowerCase (category p)) (toLowerCase q))) all"
  by (auto simp: filteredData_def Let_def intro: filter_cong)

lemma filteredData_reset: "filteredData all [] [] [] = all"
  by (simp add: filteredData_def trim_def)

lemma precedes_filter:
  "precedes p q xs \<Longrightarrow> P p \<Longrightarrow> P q \<Longrightarrow> precedes p q (filter P xs)"
  by (induction xs) auto

text \<open>\<open>precedes\<close> in terms of positions.\<close>

lemma precedes_iff_nth:
  "precedes p q xs \<longleftrightarrow> (\<exists>i j. i < j \<and> j < length xs \<and> xs ! i = p \<and> xs ! j = q)"
proof (induction xs)
  case Nil
  show ?case by simp
next
  case (Cons x xs)
  show ?case
  proof
    assume "precedes p q (x # xs)"
    then consider "x = p" "q \<in> set xs" | "precedes p q xs" by auto
    then show "\<exists>i j. i < j \<and> j < length (x # xs) \<and> (x # xs) ! i = p \<and> (x # xs) ! j = q"
    proof cases
      case 1
      then obtain k where "k < length xs" "xs ! k = q" by (auto simp: in_set_conv_nth)
      with 1 have "0 < Suc k \<and> Suc k < length (x # xs) \<and> (x # xs) ! 0 = p \<and> (x # xs) ! Suc k = q"
        by simp
      then show ?thesis by blast
    next
      case 2
      with Cons obtain i j where "i < j" "j < length xs" "xs ! i = p" "xs ! j = q" by blast
      then have "Suc i < Suc j \<and> Suc j < length (x # xs) \<and> (x # xs) ! Suc i = p \<and> (x # xs) ! Suc j = q"
        by simp
      then show ?thesis by blast
    qed
  next
    assume "\<exists>i j. i < j \<and> j < length (x # xs) \<and> (x # xs) ! i = p \<and> (x # xs) ! j = q"
    then obtain i j where ij: "i < j" "j < length (x # xs)" "(x # xs) ! i = p" "(x # xs) ! j = q"
      by blast
    then obtain j' where j': "j = Suc j'" by (cases j) auto
    show "precedes p q (x # xs)"
    proof (cases i)
      case 0
      with ij j' have "x = p" "q \<in> set xs" by auto
      then show ?thesis by simp
    next
      case (Suc i')
      with ij j' have "i' < j' \<and> j' < length xs \<and> xs ! i' = p \<and> xs ! j' = q" by auto
      with Cons have "precedes p q xs" by blast
      then show ?thesis by simp
    qed
  qed
qed

section \<open>The claims about the filter\<close>

text \<open>
  C1, as the specification states it, with the text predicate switched off only by an
  empty query: it fails for a query that is one blank. The product \<open>anvil\<close> has no
  blank in its name, brand or category, yet it stays visible, because the code tests
  \<^verbatim>\<open>search.trim()\<close> and so takes a query of blanks for no query.
\<close>

theorem blank_query_counterexample:
  "\<not> (anvil \<in> set (filtered (applyFilters blankQueryState)) \<longleftrightarrow>
        (selectedBrand blankQueryState = [] \<or> brand anvil = selectedBrand blankQueryState)
      \<and> (selectedCategory blankQueryState = []
         \<or> category anvil = selectedCategory blankQueryState)
      \<and> (search blankQueryState = []
         \<or> sublist (toLowerCase (search blankQueryState)) (toLowerCase (name anvil))
         \<or> sublist (toLowerCase (search blankQueryState)) (toLowerCase (brand anvil))
         \<or> sublist (toLowerCase (search blankQueryState)) (toLowerCase (category anvil))))"
  by code_simp

text \<open>
  C1, amended (conjunctive filtering): a product is in the list that \<^verbatim>\<open>applyFilters\<close>
  stores if and only if it is in the product list, and the brand filter is empty or
  equals its brand exactly, and the category filter is empty or equals its category
  exactly, and the text query is empty after trimming or the lower-cased query is a
  substring of its lower-cased name, brand or category.
\<close>

theorem applyFilters_conjunctive:
  "p \<in> set (filtered (applyFilters st)) \<longleftrightarrow>
     p \<in> set (products st)
     \<and> (selectedBrand st = [] \<or> brand p = selectedBrand st)
     \<and> (selectedCategory st = [] \<or> category p = selectedCategory st)
     \<and> (trim (search st) = []
        \<or> sublist (toLowerCase (search st)) (toLowerCase (name p))
        \<or> sublist (toLowerCase (search st)) (toLowerCase (brand p))
        \<or> sublist (toLowerCase (search st)) (toLowerCase (category p)))"
  by (simp add: applyFilters_def filteredData_as_filter includes'_iff_sublist)

theorem applyFilters_conjunctive_witness:
  "gadgetB \<in> set (filtered (applyFilters
       (initialState\<lparr>products := [widgetA, gadgetB, anvil], selectedBrand := ''Zeta'',
          search := ''GADGET''\<rparr>)))
   \<and> anvil \<notin> set (filtered (applyFilters
       (initialState\<lparr>products := [widgetA, gadgetB, anvil], selectedBrand := ''Zeta'',
          search := ''GADGET''\<rparr>)))"
proof -
  have a: "sublist (toLowerCase ''GADGET'') (toLowerCase (name gadgetB))"
    by code_simp
  have b: "brand gadgetB = ''Zeta''" "brand anvil \<noteq> ''Zeta''"
    by (simp_all add: gadgetB_def anvil_def)
  show ?thesis
    using a b
      applyFilters_conjunctive [of gadgetB
        "initialState\<lparr>products := [widgetA, gadgetB, anvil], selectedBrand := ''Zeta'',
           search := ''GADGET''\<rparr>"]
      applyFilters_conjunctive [of anvil
        "initialState\<lparr>products := [widgetA, gadgetB, anvil], selectedBrand := ''Zeta'',
           search := ''GADGET''\<rparr>"]
    by (simp add: initialState_def)
qed

text \<open>
  C4 (reset): with the three filter fields empty the filter returns the product list as
  it is, in order and content; so after \<^verbatim>\<open>resetFilters\<close>, whatever the filter fields
  were before, \<^verbatim>\<open>applyFilters\<close> stores the full product list, and so does the Reset
  button in every version of the view.
\<close>

theorem reset_then_filter_is_full_list:
  "filteredData all [] [] [] = all
   \<and> filtered (applyFilters (resetFilters st)) = products st
   \<and> filtered (state (step v ResetClick w)) = products (state w)"
  by (simp add: filteredData_reset applyFilters_def resetFilters_def step_def Let_def)

text \<open>
  C6 (order preservation): the list that \<^verbatim>\<open>applyFilters\<close> stores is the product list
  with elements left out, none moved; and if \<open>p\<close> stands before \<open>q\<close> in the product
  list and both are in the stored list, then \<open>p\<close> stands before \<open>q\<close> there.
\<close>

theorem applyFilters_keeps_order:
  "subseq (filtered (applyFilters st)) (products st)
   \<and> (precedes p q (products st) \<and> p \<in> set (filtered (applyFilters st))
        \<and> q \<in> set (filtered (applyFilters st))
      \<longrightarrow> precedes p q (filtered (applyFilters st)))"
  by (auto simp: applyFilters_def filteredData_as_filter intro: precedes_filter)

theorem applyFilters_keeps_order_witness:
  "precedes widgetA anvil (products toolsView)
   \<and> filtered (applyFilters toolsView) = [widgetA, anvil]
   \<and> precedes widgetA anvil (filtered (applyFilters toolsView))"
proof -
  have h: "precedes widgetA anvil (products toolsView)"
    "widgetA \<in> set (filtered (applyFilters toolsView))"
    "anvil \<in> set (filtered (applyFilters toolsView))"
    "filtered (applyFilters toolsView) = [widgetA, anvil]"
    by code_simp+
  with applyFilters_keeps_order [of toolsView widgetA anvil] show ?thesis
    by blast
qed

text \<open>
  C7 (subset): every element of the list that \<^verbatim>\<open>applyFilters\<close> stores is an element
  of the product list, and every id in it is an id of the product list; no element
  occurs more often than in the product list, so none is added, duplicated or made up.
\<close>

theorem applyFilters_subset:
  "set (filtered (applyFilters st)) \<subseteq> set (products st)
   \<and> mset (filtered (applyFilters st)) \<subseteq># mset (products st)
   \<and> set (map id' (filtered (applyFilters st))) \<subseteq> set (map id' (products st))
   \<and> length (filtered (applyFilters st)) \<le> length (products st)"
  by (auto simp: applyFilters_def filteredData_as_filter)

theorem applyFilters_subset_witness:
  "set (filtered (applyFilters toolsView)) \<subseteq> set [widgetA, gadgetB, anvil]
   \<and> gadgetB \<notin> set (filtered (applyFilters toolsView))"
proof -
  have "products toolsView = [widgetA, gadgetB, anvil]"
    "gadgetB \<notin> set (filtered (applyFilters toolsView))"
    by code_simp+
  with applyFilters_subset [of toolsView] show ?thesis
    by simp
qed

text \<open>
  C9 (white space in the query): when the query is not empty after trimming, the text
  predicate searches for the lower-cased query as typed, untrimmed: the stored list is
  the list for the empty query, restricted to the products whose lower-cased name, brand
  or category contains that string. When the query consists of white space only, the
  stored list is the one for the empty query.
\<close>

theorem whitespace_in_query:
  "(trim q \<noteq> [] \<longrightarrow>
      filtered (applyFilters (st\<lparr>search := q\<rparr>)) =
        filter (\<lambda>p. sublist (toLowerCase q) (toLowerCase (name p))
                  \<or> sublist (toLowerCase q) (toLowerCase (brand p))
                  \<or> sublist (toLowerCase q) (toLowerCase (category p)))
          (filtered (applyFilters (st\<lparr>search := []\<rparr>))))
   \<and> ((\<forall>ch\<in>set q. isWhiteSpace ch) \<longrightarrow>
        filtered (applyFilters (st\<lparr>search := q\<rparr>))
          = filtered (applyFilters (st\<lparr>search := []\<rparr>)))"
proof -
  have e: "trim [] = []" by (simp add: trim_def)
  show ?thesis
    by (auto simp: applyFilters_def filteredData_as_filter includes'_iff_sublist
        trim_empty_iff [symmetric] e intro: filter_cong)
qed

text \<open>
  The leading blank counts: \<^verbatim>\<open>" widget"\<close> finds nothing where \<^verbatim>\<open>"widget"\<close> finds
  Widget A; a blank and a tab find everything.
\<close>

theorem whitespace_in_query_witness:
  "filtered (applyFilters (catalogueView\<lparr>search := '' widget''\<rparr>)) = []
   \<and> filtered (applyFilters (catalogueView\<lparr>search := ''widget''\<rparr>)) = [widgetA]
   \<and> filtered (applyFilters (catalogueView\<lparr>search := [CHR 0x20, CHR 0x09]\<rparr>))
       = [widgetA, gadgetB, anvil]"
proof -
  have h1: "trim '' widget'' \<noteq> []"
    by code_simp
  have h2: "\<forall>ch\<in>set [CHR 0x20, CHR 0x09]. isWhiteSpace ch"
    by (simp add: isWhiteSpace_def)
  have e1: "filter (\<lambda>p. sublist (toLowerCase '' widget'') (toLowerCase (name p))
                  \<or> sublist (toLowerCase '' widget'') (toLowerCase (brand p))
                  \<or> sublist (toLowerCase '' widget'') (toLowerCase (category p)))
          (filtered (applyFilters (catalogueView\<lparr>search := []\<rparr>))) = []"
    by code_simp
  have e2: "filtered (applyFilters (catalogueView\<lparr>search := []\<rparr>)) = [widgetA, gadgetB, anvil]"
    by code_simp
  have e3: "filtered (applyFilters (catalogueView\<lparr>search := ''widget''\<rparr>)) = [widgetA]"
    by code_simp
  have a: "filtered (applyFilters (catalogueView\<lparr>search := '' widget''\<rparr>)) = []"
    using whitespace_in_query [of "'' widget''" catalogueView] h1 e1 by metis
  have b: "filtered (applyFilters (catalogueView\<lparr>search := [CHR 0x20, CHR 0x09]\<rparr>))
       = [widgetA, gadgetB, anvil]"
    using whitespace_in_query [of "[CHR 0x20, CHR 0x09]" catalogueView] h2 e2 by metis
  from a e3 b show ?thesis by blast
qed

section \<open>The claims about reset\<close>

text \<open>
  C10 (frame of reset): in every version of the view the Reset button changes nothing
  but the three filter fields, which become empty, and the visible list, which becomes
  the full product list; the product list, the brand list and the category list, the
  console and the query count stay as they were.
\<close>

theorem reset_frame:
  "step v ResetClick w =
     w\<lparr>state := (state w)\<lparr>selectedBrand := [], selectedCategory := [], search := [],
                          filtered := products (state w)\<rparr>\<rparr>
   \<and> products (resetFilters st) = products st
   \<and> brands (resetFilters st) = brands st
   \<and> categories (resetFilters st) = categories st
   \<and> selectedBrand (resetFilters st) = [] \<and> selectedCategory (resetFilters st) = []
   \<and> search (resetFilters st) = [] \<and> filtered (resetFilters st) = products st"
  by (simp add: step_def Let_def resetFilters_def applyFilters_def filteredData_reset)

section \<open>Facts about the running view\<close>

text \<open>
  A user event leaves what loading writes alone, and so does any event once the answer
  of the store has arrived.
\<close>

lemma step_user_frame: "userEvent ev \<Longrightarrow> loadFrame (step v ev w) = loadFrame w"
  by (cases ev) (simp_all add: loadFrame_def step_def Let_def applyFilters_def resetFilters_def)

lemma step_settled_frame: "\<not> awaiting w \<Longrightarrow> loadFrame (step v ev w) = loadFrame w"
  by (cases ev) (simp_all add: loadFrame_def step_def Let_def applyFilters_def resetFilters_def depsChanged_def)

lemma steps_user_frame:
  "list_all userEvent evs \<Longrightarrow> loadFrame (foldl (\<lambda>w ev. step v ev w) w evs) = loadFrame w"
  by (induction evs arbitrary: w) (simp_all add: step_user_frame)

lemma steps_settled_frame:
  "\<not> awaiting w \<Longrightarrow> loadFrame (foldl (\<lambda>w ev. step v ev w) w evs) = loadFrame w"
proof (induction evs arbitrary: w)
  case Nil
  show ?case by simp
next
  case (Cons ev evs)
  have f: "loadFrame (step v ev w) = loadFrame w"
    using Cons.prems by (rule step_settled_frame)
  then have "\<not> awaiting (step v ev w)"
    using Cons.prems by (simp add: loadFrame_def)
  then show ?case
    using Cons.IH [of "step v ev w"] f by simp
qed

lemma mount_frame: "loadFrame (mount v) = ([], 0, [], [], [], 1, True)"
  by (simp add: loadFrame_def mount_def fetchProducts_select_def initialState_def applyFilters_def Let_def)

lemma run_split:
  "run v (evs @ ev # evs') =
     foldl (\<lambda>w e. step v e w) (step v ev (run v evs)) evs'"
  by (simp add: run_def)

lemma run_user_frame:
  "list_all userEvent evs \<Longrightarrow> loadFrame (run v evs) = ([], 0, [], [], [], 1, True)"
  by (simp add: run_def steps_user_frame mount_frame)

lemma fetch_error_frame:
  assumes "error r = Some m" "awaiting w"
  shows "loadFrame (step v (FetchDone r) w) =
     (products (state w), productsRef (state w), brands (state w), categories (state w),
      console w @ [[if v = ApplyButtonPart000 then ''Error fetching data:'' else ''Error fetching:'', m]],
      requests w, False)"
  using assms
  by (simp add: loadFrame_def step_def Let_def fetchProducts_def fetchProducts_part000_def depsChanged_def)

lemma fetch_ok_frame:
  assumes "error r = None" "data r = Some d" "awaiting w"
  shows "loadFrame (step v (FetchDone r) w) =
     (d, Suc (productsRef (state w)), newSet (map brand d), newSet (map category d),
      console w, requests w, False)"
  using assms
  by (simp add: loadFrame_def step_def Let_def fetchProducts_def fetchProducts_part000_def depsChanged_def applyFilters_def)

text \<open>The effect keeps the visible list up to date in \<open>AutoRecompute\<close>.\<close>

lemma mount_upToDate: "upToDate (state (mount AutoRecompute))"
  by (simp add: upToDate_def mount_def Let_def applyFilters_def fetchProducts_select_def)

lemma applyFilters_upToDate: "upToDate (applyFilters st)"
  by (simp add: upToDate_def applyFilters_def)

lemma step_upToDate:
  "upToDate (state w) \<Longrightarrow> upToDate (state (step AutoRecompute ev w))"
proof (cases "depsChanged (state w) (state (onEvent AutoRecompute ev w))")
  case True
  then show ?thesis by (simp add: step_def Let_def applyFilters_upToDate)
next
  case False
  assume u: "upToDate (state w)"
  from False u have "upToDate (state (onEvent AutoRecompute ev w))"
    by (cases ev)
      (auto simp: upToDate_def depsChanged_def fetchProducts_def Let_def resetFilters_def
        filteredData_reset split: option.splits)
  with False show ?thesis by (simp add: step_def Let_def)
qed

lemma run_upToDate: "upToDate (state (run AutoRecompute evs))"
  by (induction evs rule: rev_induct) (simp_all add: run_def mount_upToDate step_upToDate)

section \<open>The claims about loading\<close>

text \<open>
  C5 (load failure isolation): if the answer of the store carries an error, then
  \<^verbatim>\<open>fetchProducts\<close> (of \<^verbatim>\<open>App.tsx\<close> and of \<^verbatim>\<open>part_000\<close>) changes nothing but the
  console, to which it adds one diagnostic line: no state cell changes and no further
  query is sent. In a run of any version where users act, the load fails and anything
  follows, the product list, the brand list and the category list are empty, one query
  has been sent in all, and the console holds that one line.
\<close>

theorem load_failure_isolated:
  assumes "error r = Some m"
  shows "fetchProducts r w = w\<lparr>console := console w @ [[''Error fetching:'', m]]\<rparr>
    \<and> fetchProducts_part000 r w = Inr (w\<lparr>console := console w @ [[''Error fetching data:'', m]]\<rparr>)
    \<and> state (step v (FetchDone r) w) = state w
    \<and> requests (step v (FetchDone r) w) = requests w
    \<and> (list_all userEvent evs \<longrightarrow>
         products (state (run v (evs @ FetchDone r # evs'))) = []
         \<and> brands (state (run v (evs @ FetchDone r # evs'))) = []
         \<and> categories (state (run v (evs @ FetchDone r # evs'))) = []
         \<and> requests (run v (evs @ FetchDone r # evs')) = 1
         \<and> console (run v (evs @ FetchDone r # evs')) =
             [[if v = ApplyButtonPart000 then ''Error fetching data:'' else ''Error fetching:'', m]])"
proof -
  have a: "fetchProducts r w = w\<lparr>console := console w @ [[''Error fetching:'', m]]\<rparr>"
    using assms by (simp add: fetchProducts_def)
  have b: "fetchProducts_part000 r w = Inr (w\<lparr>console := console w @ [[''Error fetching data:'', m]]\<rparr>)"
    using assms by (simp add: fetchProducts_part000_def)
  have c: "state (step v (FetchDone r) w) = state w \<and> requests (step v (FetchDone r) w) = requests w"
    using assms
    by (simp add: step_def Let_def fetchProducts_def fetchProducts_part000_def depsChanged_def)
  have d: "loadFrame (run v (evs @ FetchDone r # evs')) =
      ([], 0, [], [], [[if v = ApplyButtonPart000 then ''Error fetching data:'' else ''Error fetching:'', m]], 1, False)"
    if u: "list_all userEvent evs"
  proof -
    have f0: "loadFrame (run v evs) = ([], 0, [], [], [], 1, True)"
      using u by (rule run_user_frame)
    then have aw: "awaiting (run v evs)"
      by (simp add: loadFrame_def)
    have f1: "loadFrame (step v (FetchDone r) (run v evs)) =
      ([], 0, [], [], [[if v = ApplyButtonPart000 then ''Error fetching data:'' else ''Error fetching:'', m]], 1, False)"
      using fetch_error_frame [OF assms aw, of v] f0 by (simp add: loadFrame_def)
    then have "\<not> awaiting (step v (FetchDone r) (run v evs))"
      by (simp add: loadFrame_def)
    then have "loadFrame (foldl (\<lambda>w e. step v e w) (step v (FetchDone r) (run v evs)) evs')
        = loadFrame (step v (FetchDone r) (run v evs))"
      by (rule steps_settled_frame)
    then show ?thesis
      by (simp only: run_split f1)
  qed
  show ?thesis
    using a b c d by (simp add: loadFrame_def)
qed

theorem load_failure_isolated_witness:
  "error storeDown = Some ''connection refused''
   \<and> products (state (run AutoRecompute [SearchChange ''gadget'', FetchDone storeDown, ResetClick])) = []
   \<and> brands (state (run AutoRecompute [SearchChange ''gadget'', FetchDone storeDown, ResetClick])) = []
   \<and> categories (state (run AutoRecompute [SearchChange ''gadget'', FetchDone storeDown, ResetClick])) = []
   \<and> requests (run AutoRecompute [SearchChange ''gadget'', FetchDone storeDown, ResetClick]) = 1
   \<and> console (run AutoRecompute [SearchChange ''gadget'', FetchDone storeDown, ResetClick])
       = [[''Error fetching:'', ''connection refused'']]"
proof -
  have h: "error storeDown = Some ''connection refused''"
    by (simp add: storeDown_def)
  have u: "list_all userEvent [SearchChange ''gadget'']"
    by simp
  show ?thesis
    using h u load_failure_isolated [OF h, of "mount AutoRecompute" AutoRecompute "[SearchChange ''gadget'']" "[ResetClick]"]
    by simp
qed

text \<open>
  C8 (derived sets): if the answer of the store carries no error and a product list
  \<open>d\<close>, then \<^verbatim>\<open>fetchProducts\<close> stores \<open>d\<close> and the sets of its brands and of its
  categories. Such a set has no duplicates, has the elements of the list it is made
  from, and holds them in the order of their first occurrences. In a run of any version
  where users act, the load succeeds and anything follows, the three lists are still
  those the load stored: they are computed once, at load time.
\<close>

theorem derived_sets_at_load:
  assumes "error r = None" and "data r = Some d"
  shows "products (state (fetchProducts r w)) = d
    \<and> brands (state (fetchProducts r w)) = newSet (map brand d)
    \<and> categories (state (fetchProducts r w)) = newSet (map category d)
    \<and> fetchProducts_part000 r w = Inr (fetchProducts r w)
    \<and> distinct (newSet xs) \<and> set (newSet xs) = set xs
    \<and> newSet xs = map ((!) xs) (filter (\<lambda>i. xs ! i \<notin> set (take i xs)) [0..<length xs])
    \<and> (list_all userEvent evs \<longrightarrow>
         products (state (run v (evs @ FetchDone r # evs'))) = d
         \<and> brands (state (run v (evs @ FetchDone r # evs'))) = newSet (map brand d)
         \<and> categories (state (run v (evs @ FetchDone r # evs'))) = newSet (map category d)
         \<and> requests (run v (evs @ FetchDone r # evs')) = 1)"
proof -
  have a: "products (state (fetchProducts r w)) = d
    \<and> brands (state (fetchProducts r w)) = newSet (map brand d)
    \<and> categories (state (fetchProducts r w)) = newSet (map category d)
    \<and> fetchProducts_part000 r w = Inr (fetchProducts r w)"
    using assms by (simp add: fetchProducts_def fetchProducts_part000_def Let_def)
  have b: "distinct (newSet xs) \<and> set (newSet xs) = set xs"
    by (simp add: distinct_newSet set_newSet)
  have c: "newSet xs = map ((!) xs) (filter (\<lambda>i. xs ! i \<notin> set (take i xs)) [0..<length xs])"
    by (rule newSet_first_occurrences)
  have d: "loadFrame (run v (evs @ FetchDone r # evs')) =
      (d, 1, newSet (map brand d), newSet (map category d), [], 1, False)"
    if u: "list_all userEvent evs"
  proof -
    have f0: "loadFrame (run v evs) = ([], 0, [], [], [], 1, True)"
      using u by (rule run_user_frame)
    then have aw: "awaiting (run v evs)"
      by (simp add: loadFrame_def)
    have f1: "loadFrame (step v (FetchDone r) (run v evs)) =
      (d, 1, newSet (map brand d), newSet (map category d), [], 1, False)"
      using fetch_ok_frame [OF assms aw, of v] f0 by (simp add: loadFrame_def)
    then have "\<not> awaiting (step v (FetchDone r) (run v evs))"
      by (simp add: loadFrame_def)
    then have "loadFrame (foldl (\<lambda>w e. step v e w) (step v (FetchDone r) (run v evs)) evs')
        = loadFrame (step v (FetchDone r) (run v evs))"
      by (rule steps_settled_frame)
    then show ?thesis
      by (simp only: run_split f1)
  qed
  have e: "list_all userEvent evs \<longrightarrow>
         products (state (run v (evs @ FetchDone r # evs'))) = d
         \<and> brands (state (run v (evs @ FetchDone r # evs'))) = newSet (map brand d)
         \<and> categories (state (run v (evs @ FetchDone r # evs'))) = newSet (map category d)
         \<and> requests (run v (evs @ FetchDone r # evs')) = 1"
    using d by (simp add: loadFrame_def)
  from a b c e show ?thesis
    by (simp only: simp_thms)
qed

theorem derived_sets_at_load_witness:
  "error repeats = None \<and> data repeats = Some [widgetA, gadgetB, anvil, gadgetB]
   \<and> brands (state (run ApplyButtonPart000
        [BrandChange ''Zeta'', FetchDone repeats, ApplyClick, FetchDone storeDown]))
       = [''Acme'', ''Zeta'']
   \<and> categories (state (run ApplyButtonPart000
        [BrandChange ''Zeta'', FetchDone repeats, ApplyClick, FetchDone storeDown]))
       = [''Tools'', ''Electronics'']"
proof -
  have h: "error repeats = None" "data repeats = Some [widgetA, gadgetB, anvil, gadgetB]"
    by (simp_all add: repeats_def)
  have u: "list_all userEvent [BrandChange ''Zeta'']"
    by simp
  have n: "newSet (map brand [widgetA, gadgetB, anvil, gadgetB]) = [''Acme'', ''Zeta'']"
    "newSet (map category [widgetA, gadgetB, anvil, gadgetB]) = [''Tools'', ''Electronics'']"
    by code_simp+
  show ?thesis
    using h u n
      derived_sets_at_load [OF h, of "mount ApplyButtonPart000" "''abca''" "[BrandChange ''Zeta'']" ApplyButtonPart000
        "[ApplyClick, FetchDone storeDown]"]
    by simp
qed

section \<open>The claim about recomputation\<close>

text \<open>
  C2, as the specification states it: the visible list is up to date at every point. It
  fails in the versions with an Apply button. In \<^verbatim>\<open>part_000\<close>, after the load of three
  products, typing \<^verbatim>\<open>gadget\<close> calls \<^verbatim>\<open>setSearch\<close> only: all three products stay visible,
  while the filter yields Gadget B alone.
\<close>

theorem stale_after_typing_counterexample:
  "\<not> upToDate (state typedGadget)
   \<and> filtered (state typedGadget) = [widgetA, gadgetB, anvil]
   \<and> filteredData (products (state typedGadget)) (selectedBrand (state typedGadget))
        (selectedCategory (state typedGadget)) (search (state typedGadget)) = [gadgetB]"
  by code_simp

text \<open>
  C2, amended: in the version with the effect (\<open>AutoRecompute\<close>), after every event,
  once its handler and the effect have run, the visible list is the filter of the
  current product list and filter fields; in the versions with an Apply button it is so
  after a click on Apply, while a change of the text query, of the brand filter or of
  the category filter alone leaves the visible list as it was. \<^verbatim>\<open>applyFilters\<close>
  recomputes the visible list from the product list: what was visible before has no
  part in it.
\<close>

theorem visible_up_to_date:
  "upToDate (state (run AutoRecompute evs))
   \<and> (v \<noteq> AutoRecompute \<longrightarrow>
        upToDate (state (step v ApplyClick w))
        \<and> filtered (state (step v (SearchChange x) w)) = filtered (state w)
        \<and> filtered (state (step v (BrandChange x) w)) = filtered (state w)
        \<and> filtered (state (step v (CategoryChange x) w)) = filtered (state w))
   \<and> applyFilters (st\<lparr>filtered := xs\<rparr>) = applyFilters st"
proof -
  have a: "upToDate (state (run AutoRecompute evs))"
    by (rule run_upToDate)
  have b: "upToDate (state (step v ApplyClick w))" if "v \<noteq> AutoRecompute"
    using that by (simp add: step_def Let_def applyFilters_upToDate)
  have c: "filtered (state (step v (SearchChange x) w)) = filtered (state w)
      \<and> filtered (state (step v (BrandChange x) w)) = filtered (state w)
      \<and> filtered (state (step v (CategoryChange x) w)) = filtered (state w)"
    if "v \<noteq> AutoRecompute"
    using that by (simp add: step_def Let_def)
  have d: "applyFilters (st\<lparr>filtered := xs\<rparr>) = applyFilters st"
    by (simp add: applyFilters_def)
  from a b c d show ?thesis
    by blast
qed

theorem visible_up_to_date_witness:
  "filtered (state (run AutoRecompute [SearchChange ''gadget'', FetchDone catalogue])) = [gadgetB]
   \<and> filtered (state (step ApplyButtonPart000 ApplyClick typedGadget)) = [gadgetB]
   \<and> filtered (state (step ApplyButtonPart000 (SearchChange ''anvil'') typedGadget))
       = [widgetA, gadgetB, anvil]
   \<and> filtered (state (step ApplyButtonPart000 (BrandChange ''Acme'') typedGadget))
       = [widgetA, gadgetB, anvil]
   \<and> filtered (state (step ApplyButtonPart000 (CategoryChange ''Tools'') typedGadget))
       = [widgetA, gadgetB, anvil]"
proof -
  have a: "filteredData
      (products (state (run AutoRecompute [SearchChange ''gadget'', FetchDone catalogue])))
      (selectedBrand (state (run AutoRecompute [SearchChange ''gadget'', FetchDone catalogue])))
      (selectedCategory (state (run AutoRecompute [SearchChange ''gadget'', FetchDone catalogue])))
      (search (state (run AutoRecompute [SearchChange ''gadget'', FetchDone catalogue])))
      = [gadgetB]"
    by code_simp
  have b: "filteredData
      (products (state (step ApplyButtonPart000 ApplyClick typedGadget)))
      (selectedBrand (state (step ApplyButtonPart000 ApplyClick typedGadget)))
      (selectedCategory (state (step ApplyButtonPart000 ApplyClick typedGadget)))
      (search (state (step ApplyButtonPart000 ApplyClick typedGadget)))
      = [gadgetB]"
    by code_simp
  have c: "filtered (state typedGadget) = [widgetA, gadgetB, anvil]"
    by code_simp
  have n: "ApplyButtonPart000 \<noteq> AutoRecompute" by simp
  have s: "filtered (state (step ApplyButtonPart000 (SearchChange ''anvil'') typedGadget))
      = filtered (state typedGadget)"
    using n visible_up_to_date [where v = ApplyButtonPart000 and w = typedGadget
        and x = "''anvil''"]
    by blast
  have t: "filtered (state (step ApplyButtonPart000 (BrandChange ''Acme'') typedGadget))
      = filtered (state typedGadget)"
    using n visible_up_to_date [where v = ApplyButtonPart000 and w = typedGadget
        and x = "''Acme''"]
    by blast
  have u: "filtered (state (step ApplyButtonPart000 (CategoryChange ''Tools'') typedGadget))
      = filtered (state typedGadget)"
    using n visible_up_to_date [where v = ApplyButtonPart000 and w = typedGadget
        and x = "''Tools''"]
    by blast
  have r: "filtered (state (run AutoRecompute [SearchChange ''gadget'', FetchDone catalogue]))
      = [gadgetB]
    \<and> filtered (state (step ApplyButtonPart000 ApplyClick typedGadget)) = [gadgetB]"
    using a b n
      visible_up_to_date [where evs = "[SearchChange ''gadget'', FetchDone catalogue]"
        and v = ApplyButtonPart000 and w = typedGadget and st = initialState and xs = "[]"
        and x = "[]"]
    by (simp only: upToDate_def simp_thms)
  from r s t u c show ?thesis
    by (simp only: simp_thms)
qed

end
